theory Spec2Isabelle
  imports Complex_Main
begin

section \<open>The squat repetition detector of Project/analysis.py\<close>

subsection \<open>Data model\<close>

text \<open>
  One detected marker, as camera.py builds it: the centre \<open>(cx, cy)\<close> is a pair of
  Python ints (\<open>int(np.mean(...))\<close>), the corners are the detected points, which
  \<open>update\<close> never reads. \<open>update\<close> compares \<open>cy\<close> with the integer thresholds and
  reports it as \<open>float(cy)\<close>, here the real number of the same value.
\<close>

record marker =
  center :: "int \<times> int"
  corners :: "(real \<times> real) list"

text \<open>
  The dataclass \<open>SquatResult\<close>. The fields \<open>rep_count\<close> and \<open>state\<close> carry the
  suffix \<open>_r\<close>, since the analyzer has fields of the same names.
\<close>

record squat_result =
  rep_count_r :: int
  new_rep :: bool
  depth :: "real option"
  state_r :: string
  status_text :: string

text \<open>
  The instance fields of \<open>SquatAnalyzer\<close>. The phase is the Python string
  (\<open>"above"\<close> or \<open>"below"\<close>), Python's unbounded ints are \<open>int\<close>.
\<close>

record squat_analyzer =
  hip_id :: int
  top_threshold :: int
  bottom_threshold :: int
  min_frames_below :: int
  require_marker :: bool
  state :: string
  rep_count :: int
  below_frame_counter :: int

subsection \<open>Operations\<close>

text \<open>
  The body of \<open>SquatAnalyzer.__init__\<close> once \<open>int(min_frames_below)\<close> has returned:
  \<open>mfb\<close> is the integer it returned. The conversion itself, which can raise, is
  \<open>py_int\<close> below, and \<open>SquatAnalyzer\<close> is the constructor call on an argument of any
  of the kinds listed there.
\<close>

definition init :: "int \<Rightarrow> int \<Rightarrow> int \<Rightarrow> int \<Rightarrow> bool \<Rightarrow> squat_analyzer" where
  "init hid top_thr bottom_thr mfb req =
     \<lparr>hip_id = hid,
      top_threshold = top_thr,
      bottom_threshold = bottom_thr,
      min_frames_below = max 1 mfb,
      require_marker = req,
      state = ''above'',
      rep_count = 0,
      below_frame_counter = 0\<rparr>"

text \<open>
  The values passed as \<open>min_frames_below\<close>: the constructor does not check the type of
  its argument, so beside an int it may be \<open>None\<close>, a bool or a float. A float is a
  finite number, an infinity or NaN; a finite float is given by its exact value.
\<close>

datatype py_float = Finite real | PosInf | NegInf | NaN

datatype py_value = PyNone | PyBool bool | PyInt int | PyFloat py_float

datatype py_error = TypeError | ValueError | OverflowError

text \<open>
  Python's \<open>int(x)\<close> on these values: an int is returned as it is, \<open>True\<close> and
  \<open>False\<close> are 1 and 0, a finite float is truncated towards zero, \<open>int(None)\<close> raises
  TypeError, \<open>int(nan)\<close> ValueError and \<open>int(inf)\<close>, \<open>int(-inf)\<close> OverflowError.
\<close>

fun py_int :: "py_value \<Rightarrow> py_error + int" where
  "py_int PyNone = Inl TypeError"
| "py_int (PyBool b) = Inr (if b then 1 else 0)"
| "py_int (PyInt i) = Inr i"
| "py_int (PyFloat (Finite x)) = Inr (if x < 0 then \<lceil>x\<rceil> else \<lfloor>x\<rfloor>)"
| "py_int (PyFloat PosInf) = Inl OverflowError"
| "py_int (PyFloat NegInf) = Inl OverflowError"
| "py_int (PyFloat NaN) = Inl ValueError"

text \<open>
  The call \<open>SquatAnalyzer(hip_id, top_threshold, bottom_threshold, min_frames_below,
  require_marker)\<close>: an exception of \<open>int(min_frames_below)\<close> leaves \<open>__init__\<close> and no
  analyzer is built.
\<close>

definition SquatAnalyzer :: "int \<Rightarrow> int \<Rightarrow> int \<Rightarrow> py_value \<Rightarrow> bool \<Rightarrow> py_error + squat_analyzer" where
  "SquatAnalyzer hid top_thr bottom_thr mfb req =
     (case py_int mfb of
        Inl e \<Rightarrow> Inl e
      | Inr n \<Rightarrow> Inr (init hid top_thr bottom_thr n req))"

text \<open>The result record that \<open>update\<close> builds from the fields of the analyzer.\<close>

definition result_of :: "squat_analyzer \<Rightarrow> bool \<Rightarrow> real option \<Rightarrow> string \<Rightarrow> squat_result" where
  "result_of self nr d txt =
     \<lparr>rep_count_r = rep_count self,
      new_rep = nr,
      depth = d,
      state_r = state self,
      status_text = txt\<rparr>"

text \<open>
  \<open>SquatAnalyzer.update\<close>: the dictionary of markers is a map from marker ids, the
  mutated analyzer is returned beside the result.
\<close>

definition update :: "squat_analyzer \<Rightarrow> (int \<rightharpoonup> marker) \<Rightarrow> squat_result \<times> squat_analyzer" where
  "update self markers =
     (case markers (hip_id self) of
        None \<Rightarrow>
          (if require_marker self
           then (result_of self False None ''Hip marker not detected'', self)
           else (result_of self False None ''No marker (ignored)'', self))
      | Some m \<Rightarrow>
          (let hip_y = snd (center m);
               d = Some (real_of_int hip_y)
           in if state self = ''above'' then
                (let self1 = (if hip_y \<ge> bottom_threshold self
                              then self\<lparr>below_frame_counter := below_frame_counter self + 1\<rparr>
                              else self\<lparr>below_frame_counter := 0\<rparr>)
                 in if below_frame_counter self1 \<ge> min_frames_below self1
                    then (let self2 = self1\<lparr>state := ''below'', below_frame_counter := 0\<rparr>
                          in (result_of self2 False d ''Reached depth (below)'', self2))
                    else (result_of self1 False d ''Above / going down'', self1))
              else if state self = ''below'' then
                (if hip_y \<le> top_threshold self
                 then (let self1 = self\<lparr>state := ''above'', rep_count := rep_count self + 1\<rparr>
                       in (result_of self1 True d ''Rep completed!'', self1))
                 else (result_of self False d ''Below / coming up'', self))
              else
                (let self1 = self\<lparr>state := ''above''\<rparr>
                 in (result_of self1 False d ''State reset'', self1))))"

text \<open>\<open>SquatAnalyzer.reset\<close>.\<close>

definition reset :: "squat_analyzer \<Rightarrow> squat_analyzer" where
  "reset self = self\<lparr>state := ''above'', rep_count := 0, below_frame_counter := 0\<rparr>"

subsection \<open>Sequences of calls\<close>

text \<open>
  The frame loop of gui_app.py calls \<open>update\<close> once per frame. \<open>cycles\<close> records, for
  each frame, the analyzer before the call, the result and the analyzer after it;
  \<open>run_updates\<close> is the analyzer after the last frame.
\<close>

fun cycles :: "squat_analyzer \<Rightarrow> (int \<rightharpoonup> marker) list
    \<Rightarrow> (squat_analyzer \<times> squat_result \<times> squat_analyzer) list" where
  "cycles self [] = []"
| "cycles self (m # ms) = (self, fst (update self m), snd (update self m)) # cycles (snd (update self m)) ms"

fun run_updates :: "squat_analyzer \<Rightarrow> (int \<rightharpoonup> marker) list \<Rightarrow> squat_analyzer" where
  "run_updates self [] = self"
| "run_updates self (m # ms) = run_updates (snd (update self m)) ms"

definition results :: "squat_analyzer \<Rightarrow> (int \<rightharpoonup> marker) list \<Rightarrow> squat_result list" where
  "results self ms = map (\<lambda>(a, r, b). r) (cycles self ms)"

text \<open>The calls a client makes on an analyzer: \<open>update(markers)\<close> and \<open>reset()\<close>.\<close>

datatype call = Update "int \<rightharpoonup> marker" | Reset

fun step :: "squat_analyzer \<Rightarrow> call \<Rightarrow> squat_analyzer" where
  "step self (Update markers) = snd (update self markers)"
| "step self Reset = reset self"

fun run :: "squat_analyzer \<Rightarrow> call list \<Rightarrow> squat_analyzer" where
  "run self [] = self"
| "run self (c # cs) = run (step self c) cs"

text \<open>A frame in which marker \<open>i\<close> alone is seen, with centre \<open>(0, y)\<close>.\<close>

definition seen :: "int \<Rightarrow> int \<Rightarrow> (int \<rightharpoonup> marker)" where
  "seen i y = [i \<mapsto> \<lparr>center = (0, y), corners = []\<rparr>]"

text \<open>The events, ascents (below to above) and descents (above to below) of a trace.\<close>

definition events :: "(squat_analyzer \<times> squat_result \<times> squat_analyzer) list \<Rightarrow> nat" where
  "events tr = length (filter (\<lambda>(a, r, b). new_rep r) tr)"

definition ascents :: "(squat_analyzer \<times> squat_result \<times> squat_analyzer) list \<Rightarrow> nat" where
  "ascents tr = length (filter (\<lambda>(a, r, b). state a = ''below'' \<and> state b = ''above'') tr)"

definition descents :: "(squat_analyzer \<times> squat_result \<times> squat_analyzer) list \<Rightarrow> nat" where
  "descents tr = length (filter (\<lambda>(a, r, b). state a = ''above'' \<and> state b = ''below'') tr)"

text \<open>
  Frames of a debounce run, as the branch for phase above tests them: the hip marker is
  seen and its \<open>hip_y\<close> is at or beyond \<open>bottom_threshold\<close> (a deep frame), or it is seen
  with \<open>hip_y\<close> short of it (a shallow frame).
\<close>

definition deep_frame :: "squat_analyzer \<Rightarrow> (int \<rightharpoonup> marker) \<Rightarrow> bool" where
  "deep_frame self markers =
     (case markers (hip_id self) of
        None \<Rightarrow> False
      | Some m \<Rightarrow> snd (center m) \<ge> bottom_threshold self)"

definition shallow_frame :: "squat_analyzer \<Rightarrow> (int \<rightharpoonup> marker) \<Rightarrow> bool" where
  "shallow_frame self markers =
     (case markers (hip_id self) of
        None \<Rightarrow> False
      | Some m \<Rightarrow> snd (center m) < bottom_threshold self)"

text \<open>A result with its status text blanked: the fields a client computes with.\<close>

definition without_text :: "squat_result \<Rightarrow> squat_result" where
  "without_text r = r\<lparr>status_text := []\<rparr>"

text \<open>The state invariant: the debounce counter stays below the debounce length and is 0 in phase below.\<close>

definition state_inv :: "squat_analyzer \<Rightarrow> bool" where
  "state_inv self \<longleftrightarrow>
     0 \<le> below_frame_counter self \<and> below_frame_counter self < min_frames_below self \<and>
     (if state self = ''below'' then below_frame_counter self = 0 else True)"

section \<open>Basic facts about one call\<close>

lemma update_absent:
  "markers (hip_id self) = None \<Longrightarrow>
   update self markers =
     (result_of self False None
        (if require_marker self then ''Hip marker not detected'' else ''No marker (ignored)''), self)"
  by (simp add: update_def)

lemma new_rep_iff:
  "new_rep (fst (update self markers)) \<longleftrightarrow>
     (state self = ''below'' \<and> state (snd (update self markers)) = ''above'')"
  by (simp add: update_def result_of_def Let_def split: option.splits)

lemma rep_count_step:
  "rep_count (snd (update self markers)) =
     rep_count self + (if new_rep (fst (update self markers)) then 1 else 0)"
  by (simp add: update_def result_of_def Let_def split: option.splits)

lemma result_rep_count:
  "rep_count_r (fst (update self markers)) = rep_count (snd (update self markers))"
  by (simp add: update_def result_of_def Let_def split: option.splits)

lemma state_after_update:
  "state (snd (update self markers)) = state self \<or>
   state (snd (update self markers)) = ''above'' \<or>
   state (snd (update self markers)) = ''below'' \<and> state self = ''above''"
  by (simp add: update_def Let_def split: option.splits)

lemma phase_closed_update:
  "state self = ''above'' \<or> state self = ''below'' \<Longrightarrow>
   state (snd (update self markers)) = ''above'' \<or> state (snd (update self markers)) = ''below''"
  using state_after_update [of self markers] by auto

lemma events_eq_ascents: "events (cycles self ms) = ascents (cycles self ms)"
  by (induction ms arbitrary: self) (simp_all add: events_def ascents_def new_rep_iff split_beta)

lemma events_rep_count:
  "rep_count (run_updates self ms) = rep_count self + int (events (cycles self ms))"
  by (induction ms arbitrary: self) (simp_all add: events_def rep_count_step split_beta)

lemma alternation:
  "state self = ''above'' \<or> state self = ''below'' \<Longrightarrow>
   descents (cycles self ms) + (if state self = ''below'' then 1 else 0) =
   ascents (cycles self ms) + (if state (run_updates self ms) = ''below'' then 1 else 0)"
proof (induction ms arbitrary: self)
  case Nil
  then show ?case by (simp add: descents_def ascents_def)
next
  case (Cons m ms)
  let ?s = "snd (update self m)"
  have ph: "state ?s = ''above'' \<or> state ?s = ''below''"
    using Cons.prems by (rule phase_closed_update)
  have ih: "descents (cycles ?s ms) + (if state ?s = ''below'' then 1 else 0) =
            ascents (cycles ?s ms) + (if state (run_updates ?s ms) = ''below'' then 1 else 0)"
    using ph by (rule Cons.IH)
  show ?case using Cons.prems ph ih
    by (auto simp add: descents_def ascents_def split_beta)
qed

lemma results_Cons:
  "results self (m # ms) = fst (update self m) # results (snd (update self m)) ms"
  by (simp add: results_def split_beta)

lemma sorted_counts: "sorted (rep_count self # map rep_count_r (results self ms))"
proof (induction ms arbitrary: self)
  case Nil
  show ?case by (simp add: results_def)
next
  case (Cons m ms)
  have le: "rep_count self \<le> rep_count (snd (update self m))"
    by (simp add: rep_count_step)
  have ih: "sorted (rep_count (snd (update self m)) # map rep_count_r (results (snd (update self m)) ms))"
    by (rule Cons.IH)
  have "sorted (rep_count self # rep_count (snd (update self m))
                  # map rep_count_r (results (snd (update self m)) ms))"
    using le ih by (simp only: sorted2 simp_thms)
  then show ?case
    by (simp only: results_Cons list.map result_rep_count)
qed

lemma run_updates_append:
  "run_updates self (ms @ ms') = run_updates (run_updates self ms) ms'"
  by (induction ms arbitrary: self) simp_all

lemma cycles_append:
  "cycles self (ms @ ms') = cycles self ms @ cycles (run_updates self ms) ms'"
  by (induction ms arbitrary: self) simp_all

lemma deep_frame_counter [simp]:
  "deep_frame (self\<lparr>below_frame_counter := c\<rparr>) m = deep_frame self m"
  by (simp add: deep_frame_def cong: option.case_cong)

lemma no_event_above: "state self = ''above'' \<Longrightarrow> \<not> new_rep (fst (update self m))"
  by (simp add: new_rep_iff)

lemma deep_step:
  assumes "state self = ''above''" "deep_frame self m"
  shows "snd (update self m) =
     (if min_frames_below self \<le> below_frame_counter self + 1
      then self\<lparr>below_frame_counter := 0, state := ''below''\<rparr>
      else self\<lparr>below_frame_counter := below_frame_counter self + 1\<rparr>)"
proof (cases "m (hip_id self)")
  case None
  then show ?thesis using assms(2) by (simp add: deep_frame_def)
next
  case (Some mk)
  then show ?thesis using assms by (simp add: update_def deep_frame_def Let_def)
qed

lemma shallow_step:
  assumes "state self = ''above''" "shallow_frame self m" "0 < min_frames_below self"
  shows "snd (update self m) = self\<lparr>below_frame_counter := 0\<rparr>"
proof (cases "m (hip_id self)")
  case None
  then show ?thesis using assms(2) by (simp add: shallow_frame_def)
next
  case (Some mk)
  then show ?thesis using assms by (simp add: update_def shallow_frame_def Let_def)
qed

lemma deep_run:
  "state self = ''above'' \<Longrightarrow> \<forall>m \<in> set ms. deep_frame self m \<Longrightarrow>
   below_frame_counter self + int (length ms) < min_frames_below self \<Longrightarrow>
   run_updates self ms = self\<lparr>below_frame_counter := below_frame_counter self + int (length ms)\<rparr> \<and>
   events (cycles self ms) = 0 \<and> descents (cycles self ms) = 0"
proof (induction ms arbitrary: self)
  case Nil
  then show ?case by (simp add: events_def descents_def)
next
  case (Cons m ms)
  let ?s = "self\<lparr>below_frame_counter := below_frame_counter self + 1\<rparr>"
  have d: "deep_frame self m" using Cons.prems(2) by simp
  have lt: "\<not> min_frames_below self \<le> below_frame_counter self + 1" using Cons.prems(3) by simp
  have st: "snd (update self m) = ?s"
    using deep_step [OF Cons.prems(1) d] lt by simp
  have ne: "\<not> new_rep (fst (update self m))" using Cons.prems(1) by (rule no_event_above)
  have a: "state ?s = ''above''" using Cons.prems(1) by simp
  have b: "\<forall>m \<in> set ms. deep_frame ?s m" using Cons.prems(2) by simp
  have c: "below_frame_counter ?s + int (length ms) < min_frames_below ?s" using Cons.prems(3) by simp
  have ih: "run_updates ?s ms = ?s\<lparr>below_frame_counter := below_frame_counter ?s + int (length ms)\<rparr> \<and>
   events (cycles ?s ms) = 0 \<and> descents (cycles ?s ms) = 0"
    using a b c by (rule Cons.IH)
  show ?case using ih Cons.prems(1) ne
    by (simp add: st events_def descents_def add.assoc split_beta)
qed

section \<open>Events and phase transitions\<close>

text \<open>
  Claim C1. In every analyzer state and for every frame, the result's \<open>new_rep\<close> flag is
  true exactly when this call of \<open>update\<close> takes the phase from \<open>"below"\<close> to
  \<open>"above"\<close>. Hence over any sequence of frames the number of events is the number of
  below-to-above transitions and the growth of \<open>rep_count\<close>; and from phase
  \<open>"above"\<close> the number of above-to-below transitions is the number of events, plus one when
  the sequence ends in phase \<open>"below"\<close>: one event per completed excursion, on the frame of
  its ascent.
\<close>

theorem event_iff_ascent:
  "(new_rep (fst (update self markers)) \<longleftrightarrow>
      state self = ''below'' \<and> state (snd (update self markers)) = ''above'') \<and>
   events (cycles self ms) = ascents (cycles self ms) \<and>
   rep_count (run_updates self ms) = rep_count self + int (events (cycles self ms)) \<and>
   (state self = ''above'' \<longrightarrow>
      descents (cycles self ms) =
        events (cycles self ms) + (if state (run_updates self ms) = ''below'' then 1 else 0))"
proof -
  have "state self = ''above'' \<longrightarrow>
      descents (cycles self ms) =
        events (cycles self ms) + (if state (run_updates self ms) = ''below'' then 1 else 0)"
    using alternation [of self ms] by (auto simp add: events_eq_ascents)
  then show ?thesis
    by (simp only: new_rep_iff events_eq_ascents events_rep_count simp_thms)
qed

text \<open>The frames 100, 400, 400, 150 with thresholds 200 and 350 and debounce length 2.\<close>

theorem event_iff_ascent_witness:
  "state (init 0 200 350 2 True) = ''above'' \<and>
   map new_rep (results (init 0 200 350 2 True) [seen 0 100, seen 0 400, seen 0 400, seen 0 150])
     = [False, False, False, True] \<and>
   events (cycles (init 0 200 350 2 True) [seen 0 100, seen 0 400, seen 0 400, seen 0 150]) = 1 \<and>
   ascents (cycles (init 0 200 350 2 True) [seen 0 100, seen 0 400, seen 0 400, seen 0 150]) = 1 \<and>
   descents (cycles (init 0 200 350 2 True) [seen 0 100, seen 0 400, seen 0 400, seen 0 150]) = 1 \<and>
   rep_count (run_updates (init 0 200 350 2 True) [seen 0 100, seen 0 400, seen 0 400, seen 0 150]) = 1"
  using event_iff_ascent [of "init 0 200 350 2 True" "seen 0 100" "[seen 0 100, seen 0 400, seen 0 400, seen 0 150]"]
  by (simp add: update_def result_of_def init_def seen_def Let_def
      events_def ascents_def descents_def results_def)

section \<open>Debounce of the descent\<close>

lemma shallow_frame_counter [simp]:
  "shallow_frame (self\<lparr>below_frame_counter := c\<rparr>) m = shallow_frame self m"
  by (simp add: shallow_frame_def cong: option.case_cong)

lemma descents_append: "descents (tr @ tr') = descents tr + descents tr'"
  by (simp add: descents_def)

lemma events_append: "events (tr @ tr') = events tr + events tr'"
  by (simp add: events_def)

lemma descents_single:
  "descents (cycles self [m]) =
     (if state self = ''above'' \<and> state (snd (update self m)) = ''below'' then 1 else 0)"
  by (simp add: descents_def split_beta)

lemma events_single:
  "events (cycles self [m]) = (if new_rep (fst (update self m)) then 1 else 0)"
  by (simp add: events_def split_beta)

lemma descents_snoc:
  "descents (cycles self (ms @ [m])) =
     descents (cycles self ms) + descents (cycles (run_updates self ms) [m])"
  by (simp only: cycles_append descents_append)

lemma events_snoc:
  "events (cycles self (ms @ [m])) =
     events (cycles self ms) + events (cycles (run_updates self ms) [m])"
  by (simp only: cycles_append events_append)

lemma run_updates_snoc:
  "run_updates self (ms @ [m]) = snd (update (run_updates self ms) m)"
  by (simp add: run_updates_append)

lemma counter_zero_id:
  "below_frame_counter self = 0 \<Longrightarrow> self\<lparr>below_frame_counter := 0\<rparr> = self"
  by (cases self) simp

lemma debounce_broken:
  assumes a: "state self = ''above''" and z: "below_frame_counter self = 0"
    and k: "min_frames_below self = int k" "1 \<le> k"
    and d: "\<forall>m \<in> set ms. deep_frame self m"
    and len: "length ms = k - 1" and sh: "shallow_frame self m'"
  shows "run_updates self (ms @ [m']) = self \<and> descents (cycles self (ms @ [m'])) = 0"
proof -
  let ?s = "self\<lparr>below_frame_counter := int (k - 1)\<rparr>"
  have lt: "below_frame_counter self + int (length ms) < min_frames_below self"
    using z k len by simp
  have r: "run_updates self ms = ?s" and d0: "descents (cycles self ms) = 0"
    using deep_run [OF a d lt] z len by simp_all
  have as: "state ?s = ''above''" using a by simp
  have shs: "shallow_frame ?s m'" using sh by simp
  have pos: "0 < min_frames_below ?s" using k by simp
  have st: "snd (update ?s m') = self"
    using shallow_step [OF as shs pos] z by (simp add: counter_zero_id)
  have d1: "descents (cycles ?s [m']) = 0"
    using a st by (simp only: descents_single) simp
  have "run_updates self (ms @ [m']) = self"
    using r st by (simp only: run_updates_snoc)
  moreover have "descents (cycles self (ms @ [m'])) = 0"
    using r d0 d1 by (simp only: descents_snoc)
  ultimately show ?thesis by simp
qed

lemma debounce_satisfied:
  assumes a: "state self = ''above''" and z: "below_frame_counter self = 0"
    and k: "min_frames_below self = int k" "1 \<le> k"
    and d: "\<forall>m \<in> set ms. deep_frame self m"
    and len: "length ms = k"
  shows "run_updates self ms = self\<lparr>state := ''below''\<rparr> \<and>
         state (run_updates self (butlast ms)) = ''above'' \<and>
         descents (cycles self ms) = 1 \<and> events (cycles self ms) = 0"
proof -
  let ?s = "self\<lparr>below_frame_counter := int (k - 1)\<rparr>"
  let ?t = "self\<lparr>state := ''below''\<rparr>"
  have ne: "ms \<noteq> []" using len k by auto
  then have split: "ms = butlast ms @ [last ms]" by simp
  have db: "\<forall>m \<in> set (butlast ms). deep_frame self m"
    using d by (meson in_set_butlastD)
  have dl: "deep_frame self (last ms)" using d ne by simp
  have lt: "below_frame_counter self + int (length (butlast ms)) < min_frames_below self"
    using z k len by simp
  have r: "run_updates self (butlast ms) = ?s" and d0: "descents (cycles self (butlast ms)) = 0"
    and e0: "events (cycles self (butlast ms)) = 0"
    using deep_run [OF a db lt] z len by simp_all
  have as: "state ?s = ''above''" using a by simp
  have dls: "deep_frame ?s (last ms)" using dl by simp
  have "snd (update ?s (last ms)) = self\<lparr>below_frame_counter := 0, state := ''below''\<rparr>"
    using deep_step [OF as dls] k by simp
  then have st: "snd (update ?s (last ms)) = ?t"
    using z by (simp add: counter_zero_id)
  have ne': "\<not> new_rep (fst (update ?s (last ms)))" using as by (rule no_event_above)
  have d1: "descents (cycles ?s [last ms]) = 1" using a st by (simp only: descents_single) simp
  have e1: "events (cycles ?s [last ms]) = 0" using ne' by (simp only: events_single) simp
  have run: "run_updates self ms = ?t"
    using r st run_updates_snoc [of self "butlast ms" "last ms"] split by simp
  have dd: "descents (cycles self ms) = 1"
    using r d0 d1 descents_snoc [of self "butlast ms" "last ms"] split by simp
  have ee: "events (cycles self ms) = 0"
    using r e0 e1 events_snoc [of self "butlast ms" "last ms"] split by simp
  show ?thesis
    using run r as dd ee by simp
qed

text \<open>
  Claim C2, amended. For an analyzer in phase \<open>"above"\<close> whose debounce counter is 0, with
  debounce length \<open>k \<ge> 1\<close>: after \<open>k - 1\<close> consecutive frames with
  \<open>hip_y \<ge> bottom_threshold\<close> the phase is still \<open>"above"\<close>; one further frame with
  \<open>hip_y < bottom_threshold\<close> leaves the phase \<open>"above"\<close>, with no transition to
  \<open>"below"\<close> on any of the frames, and the counter at 0; one further frame with
  \<open>hip_y \<ge> bottom_threshold\<close> instead (\<open>k\<close> in a row) ends in phase
  \<open>"below"\<close> with the counter at 0, \<open>rep_count\<close> as before, one descent and no event.
\<close>

theorem debounce_from_zero:
  assumes "state self = ''above''" and "below_frame_counter self = 0"
    and "min_frames_below self = int k" and "1 \<le> k"
    and "length ms = k - 1" and "\<forall>m \<in> set ms. deep_frame self m"
    and "shallow_frame self m_shallow" and "deep_frame self m_deep"
  shows "state (run_updates self (ms @ [m_shallow])) = ''above'' \<and>
         below_frame_counter (run_updates self (ms @ [m_shallow])) = 0 \<and>
         descents (cycles self (ms @ [m_shallow])) = 0 \<and>
         state (run_updates self ms) = ''above'' \<and>
         state (run_updates self (ms @ [m_deep])) = ''below'' \<and>
         below_frame_counter (run_updates self (ms @ [m_deep])) = 0 \<and>
         rep_count (run_updates self (ms @ [m_deep])) = rep_count self \<and>
         descents (cycles self (ms @ [m_deep])) = 1 \<and>
         events (cycles self (ms @ [m_deep])) = 0"
proof -
  have b: "run_updates self (ms @ [m_shallow]) = self \<and>
           descents (cycles self (ms @ [m_shallow])) = 0"
    using assms(1-4) assms(6) assms(5) assms(7) by (rule debounce_broken)
  have dp: "\<forall>m \<in> set (ms @ [m_deep]). deep_frame self m"
    using assms(6) assms(8) by simp
  have len: "length (ms @ [m_deep]) = k" using assms(4) assms(5) by simp
  have s: "run_updates self (ms @ [m_deep]) = self\<lparr>state := ''below''\<rparr> \<and>
         state (run_updates self (butlast (ms @ [m_deep]))) = ''above'' \<and>
         descents (cycles self (ms @ [m_deep])) = 1 \<and> events (cycles self (ms @ [m_deep])) = 0"
    using assms(1-4) dp len by (rule debounce_satisfied)
  show ?thesis using b s assms(1) assms(2) by simp
qed

text \<open>Debounce length 3: the frames 400, 360 and then 349 or 350.\<close>

theorem debounce_from_zero_witness:
  "state (init 0 200 350 3 True) = ''above'' \<and>
   below_frame_counter (init 0 200 350 3 True) = 0 \<and>
   min_frames_below (init 0 200 350 3 True) = int 3 \<and> (1::nat) \<le> 3 \<and>
   length [seen 0 400, seen 0 360] = 3 - 1 \<and>
   deep_frame (init 0 200 350 3 True) (seen 0 400) \<and>
   deep_frame (init 0 200 350 3 True) (seen 0 360) \<and>
   shallow_frame (init 0 200 350 3 True) (seen 0 349) \<and>
   deep_frame (init 0 200 350 3 True) (seen 0 350) \<and>
   state (run_updates (init 0 200 350 3 True) [seen 0 400, seen 0 360, seen 0 349]) = ''above'' \<and>
   below_frame_counter (run_updates (init 0 200 350 3 True) [seen 0 400, seen 0 360, seen 0 349]) = 0 \<and>
   state (run_updates (init 0 200 350 3 True) [seen 0 400, seen 0 360, seen 0 350]) = ''below'' \<and>
   rep_count (run_updates (init 0 200 350 3 True) [seen 0 400, seen 0 360, seen 0 350]) = 0"
proof -
  have h: "state (init 0 200 350 3 True) = ''above''"
    "below_frame_counter (init 0 200 350 3 True) = 0"
    "min_frames_below (init 0 200 350 3 True) = int 3" "(1::nat) \<le> 3"
    "length [seen 0 400, seen 0 360] = 3 - 1"
    "\<forall>m \<in> set [seen 0 400, seen 0 360]. deep_frame (init 0 200 350 3 True) m"
    "shallow_frame (init 0 200 350 3 True) (seen 0 349)"
    "deep_frame (init 0 200 350 3 True) (seen 0 350)"
    by (simp_all add: init_def seen_def deep_frame_def shallow_frame_def)
  show ?thesis using h debounce_from_zero [OF h] by (simp add: init_def)
qed

text \<open>
  Claim C2 as stated, for every analyzer in phase \<open>"above"\<close>, fails for one that already
  counted a deep frame: with debounce length 2, the state reached from the initial one by
  the frame 400 is in phase \<open>"above"\<close> with counter 1; the run of \<open>k - 1 = 1\<close> deep
  frame followed by the shallow frame 300 ends in phase \<open>"below"\<close>.
\<close>

theorem debounce_midrun_counterexample:
  "state (snd (update (init 0 200 350 2 True) (seen 0 400))) = ''above'' \<and>
   min_frames_below (snd (update (init 0 200 350 2 True) (seen 0 400))) = 2 \<and>
   deep_frame (snd (update (init 0 200 350 2 True) (seen 0 400))) (seen 0 400) \<and>
   shallow_frame (snd (update (init 0 200 350 2 True) (seen 0 400))) (seen 0 300) \<and>
   state (run_updates (snd (update (init 0 200 350 2 True) (seen 0 400)))
            [seen 0 400, seen 0 300]) = ''below''"
  by (simp add: update_def init_def seen_def deep_frame_def shallow_frame_def Let_def)

section \<open>The ascent\<close>

lemma ascent_step:
  assumes "state self = ''below''" "markers (hip_id self) = Some m"
    "snd (center m) \<le> top_threshold self"
  shows "update self markers =
     (result_of (self\<lparr>state := ''above'', rep_count := rep_count self + 1\<rparr>) True
        (Some (real_of_int (snd (center m)))) ''Rep completed!'',
      self\<lparr>state := ''above'', rep_count := rep_count self + 1\<rparr>)"
  using assms by (simp add: update_def Let_def)

text \<open>
  Claim C3. In phase \<open>"below"\<close>, whatever the debounce counter and the other fields, one
  frame in which the hip marker is seen with \<open>hip_y \<le> top_threshold\<close> sets the phase to
  \<open>"above"\<close>, adds exactly 1 to \<open>rep_count\<close> and reports \<open>new_rep = True\<close>; no
  other field changes.
\<close>

theorem ascent_not_debounced:
  assumes "state self = ''below''" and "markers (hip_id self) = Some m"
    and "snd (center m) \<le> top_threshold self"
  shows "state (snd (update self markers)) = ''above'' \<and>
         rep_count (snd (update self markers)) = rep_count self + 1 \<and>
         new_rep (fst (update self markers)) \<and>
         state_r (fst (update self markers)) = ''above'' \<and>
         rep_count_r (fst (update self markers)) = rep_count self + 1 \<and>
         snd (update self markers) = self\<lparr>state := ''above'', rep_count := rep_count self + 1\<rparr>"
  using assms ascent_step [of self markers m] by (simp add: result_of_def)

text \<open>A state in phase below with counter 3 and 7 repetitions, and the frame 200.\<close>

theorem ascent_not_debounced_witness:
  "state \<lparr>hip_id = 0, top_threshold = 200, bottom_threshold = 350, min_frames_below = 5,
      require_marker = True, state = ''below'', rep_count = 7, below_frame_counter = 3\<rparr> = ''below'' \<and>
   seen 0 200 0 = Some \<lparr>center = (0, 200), corners = []\<rparr> \<and>
   snd (center \<lparr>center = (0, 200), corners = []\<rparr>) \<le> (200::int) \<and>
   update \<lparr>hip_id = 0, top_threshold = 200, bottom_threshold = 350, min_frames_below = 5,
      require_marker = True, state = ''below'', rep_count = 7, below_frame_counter = 3\<rparr> (seen 0 200) =
     (\<lparr>rep_count_r = 8, new_rep = True, depth = Some 200, state_r = ''above'',
       status_text = ''Rep completed!''\<rparr>,
      \<lparr>hip_id = 0, top_threshold = 200, bottom_threshold = 350, min_frames_below = 5,
      require_marker = True, state = ''above'', rep_count = 8, below_frame_counter = 3\<rparr>)"
  using ascent_not_debounced [of "\<lparr>hip_id = 0, top_threshold = 200, bottom_threshold = 350,
      min_frames_below = 5, require_marker = True, state = ''below'', rep_count = 7,
      below_frame_counter = 3\<rparr>" "seen 0 200" "\<lparr>center = (0, 200), corners = []\<rparr>"]
  by (simp add: seen_def update_def result_of_def Let_def)

section \<open>The repetition count\<close>

lemma run_updates_count_le:
  "rep_count (run_updates self ms) \<le> rep_count self + int (length ms)"
proof (induction ms arbitrary: self)
  case Nil
  show ?case by simp
next
  case (Cons m ms)
  have "rep_count (run_updates (snd (update self m)) ms)
          \<le> rep_count (snd (update self m)) + int (length ms)"
    by (rule Cons.IH)
  moreover have "rep_count (snd (update self m)) \<le> rep_count self + 1"
    by (simp add: rep_count_step)
  ultimately show ?case by simp
qed

text \<open>
  Claim C4. From every analyzer state, one call of \<open>update\<close> (hip marker seen or not)
  leaves \<open>rep_count\<close> as it is or adds 1, and reports the new count; over every sequence
  of frames the reported counts, preceded by the initial count, are non-decreasing, and
  the final count exceeds the initial one by at most the number of frames.
\<close>

theorem rep_count_monotone:
  "rep_count self \<le> rep_count (snd (update self m)) \<and>
   rep_count (snd (update self m)) \<le> rep_count self + 1 \<and>
   rep_count_r (fst (update self m)) = rep_count (snd (update self m)) \<and>
   sorted (rep_count self # map rep_count_r (results self ms)) \<and>
   rep_count self \<le> rep_count (run_updates self ms) \<and>
   rep_count (run_updates self ms) \<le> rep_count self + int (length ms)"
proof -
  have "rep_count self \<le> rep_count (run_updates self ms)"
    by (simp add: events_rep_count)
  then show ?thesis
    by (simp only: sorted_counts result_rep_count run_updates_count_le simp_thms)
       (simp add: rep_count_step)
qed

text \<open>Six frames, two of them without the hip marker, over two repetitions.\<close>

theorem rep_count_monotone_witness:
  "map rep_count_r (results (init 0 200 350 1 False)
      [seen 0 400, seen 0 100, Map.empty, seen 1 400, seen 0 400, seen 0 100]) = [0, 1, 1, 1, 1, 2] \<and>
   sorted (rep_count (init 0 200 350 1 False) # map rep_count_r (results (init 0 200 350 1 False)
      [seen 0 400, seen 0 100, Map.empty, seen 1 400, seen 0 400, seen 0 100]))"
  using rep_count_monotone [of "init 0 200 350 1 False" "seen 0 400"
      "[seen 0 400, seen 0 100, Map.empty, seen 1 400, seen 0 400, seen 0 100]"]
  by (simp add: results_def update_def result_of_def init_def seen_def Let_def)

section \<open>Frames without the hip marker\<close>

text \<open>
  Claim C5. When the hip marker is not among the detected markers, \<open>update\<close> returns the
  analyzer unchanged (phase, \<open>rep_count\<close>, debounce counter and every other field), and
  the result has \<open>new_rep = False\<close>, \<open>depth = None\<close>, the phase and count as held,
  whatever the state and whatever \<open>require_marker\<close>.
\<close>

theorem absent_is_inert:
  assumes "markers (hip_id self) = None"
  shows "snd (update self markers) = self \<and>
         new_rep (fst (update self markers)) = False \<and>
         depth (fst (update self markers)) = None \<and>
         state_r (fst (update self markers)) = state self \<and>
         rep_count_r (fst (update self markers)) = rep_count self"
  using assms update_absent [of markers self] by (simp add: result_of_def)

text \<open>Only marker 1 is seen while the hip marker is 0, in the middle of a debounce run.\<close>

theorem absent_is_inert_witness:
  "seen 1 400 0 = None \<and>
   update \<lparr>hip_id = 0, top_threshold = 200, bottom_threshold = 350, min_frames_below = 3,
      require_marker = False, state = ''above'', rep_count = 4, below_frame_counter = 2\<rparr> (seen 1 400) =
     (\<lparr>rep_count_r = 4, new_rep = False, depth = None, state_r = ''above'',
       status_text = ''No marker (ignored)''\<rparr>,
      \<lparr>hip_id = 0, top_threshold = 200, bottom_threshold = 350, min_frames_below = 3,
      require_marker = False, state = ''above'', rep_count = 4, below_frame_counter = 2\<rparr>)"
  using absent_is_inert [of "seen 1 400" "\<lparr>hip_id = 0, top_threshold = 200,
      bottom_threshold = 350, min_frames_below = 3, require_marker = False, state = ''above'',
      rep_count = 4, below_frame_counter = 2\<rparr>"]
  by (simp add: seen_def update_def result_of_def)

section \<open>Reset\<close>

lemma reset_idem: "reset (reset self) = reset self"
  by (simp add: reset_def)

lemma reset_funpow: "(reset ^^ Suc n) self = reset self"
  by (induction n) (simp_all add: reset_idem)

text \<open>
  Claim C6. \<open>reset\<close> sets the phase to \<open>"above"\<close>, \<open>rep_count\<close> and the debounce
  counter to 0, leaves the five configuration fields as they are, and is idempotent: any
  positive number of consecutive resets gives the state of a single one.
\<close>

theorem reset_establishes_initial:
  "state (reset self) = ''above'' \<and> rep_count (reset self) = 0 \<and>
   below_frame_counter (reset self) = 0 \<and>
   hip_id (reset self) = hip_id self \<and>
   top_threshold (reset self) = top_threshold self \<and>
   bottom_threshold (reset self) = bottom_threshold self \<and>
   min_frames_below (reset self) = min_frames_below self \<and>
   require_marker (reset self) = require_marker self \<and>
   reset (reset self) = reset self \<and>
   (reset ^^ Suc n) self = reset self"
  by (simp only: reset_funpow reset_idem simp_thms) (simp add: reset_def)

section \<open>The constructor\<close>

lemma py_int_fails:
  "(\<exists>e. py_int v = Inl e) \<longleftrightarrow>
     v = PyNone \<or> v = PyFloat NaN \<or> v = PyFloat PosInf \<or> v = PyFloat NegInf"
proof (cases v)
  case (PyFloat f)
  then show ?thesis by (cases f) simp_all
qed simp_all

lemma constructor_result:
  "SquatAnalyzer hid top_thr bottom_thr v req = Inr s \<longleftrightarrow>
     (\<exists>n. py_int v = Inr n \<and> s = init hid top_thr bottom_thr n req)"
  by (auto simp add: SquatAnalyzer_def split: sum.splits)

lemma constructor_fails:
  "SquatAnalyzer hid top_thr bottom_thr v req = Inl e \<longleftrightarrow> py_int v = Inl e"
  by (simp add: SquatAnalyzer_def split: sum.splits)

text \<open>
  Claim C9 as stated, for every constructor argument, fails for an argument that
  \<open>int()\<close> rejects: \<open>SquatAnalyzer(0, 200, 350, None, True)\<close> raises TypeError and
  stores nothing.
\<close>

theorem constructor_none_counterexample:
  "SquatAnalyzer 0 200 350 PyNone True = Inl TypeError"
  by (simp add: SquatAnalyzer_def)

text \<open>
  Claim C9, amended. For every integer argument \<open>min_frames_below\<close>, zero and negative
  ones included, the constructor returns an analyzer whose stored debounce length equals
  \<open>max(1, min_frames_below)\<close> and is at least 1. For every argument, whenever the
  constructor returns, the stored length is \<open>max(1, int(min_frames_below))\<close> and at least 1;
  the constructor fails exactly when \<open>int()\<close> raises, with the same exception, which among
  None, bools, ints and floats happens for None, NaN and the two infinities only.
\<close>

theorem constructor_min_frames:
  "SquatAnalyzer hid top_thr bottom_thr (PyInt i) req = Inr (init hid top_thr bottom_thr i req) \<and>
   min_frames_below (init hid top_thr bottom_thr i req) = max 1 i \<and>
   1 \<le> min_frames_below (init hid top_thr bottom_thr i req) \<and>
   (SquatAnalyzer hid top_thr bottom_thr v req = Inr s \<longrightarrow>
      1 \<le> min_frames_below s \<and>
      (\<exists>n. py_int v = Inr n \<and> min_frames_below s = max 1 n)) \<and>
   (SquatAnalyzer hid top_thr bottom_thr v req = Inl e \<longleftrightarrow> py_int v = Inl e) \<and>
   ((\<exists>e. SquatAnalyzer hid top_thr bottom_thr v req = Inl e) \<longleftrightarrow>
      v = PyNone \<or> v = PyFloat NaN \<or> v = PyFloat PosInf \<or> v = PyFloat NegInf)"
proof -
  have a: "SquatAnalyzer hid top_thr bottom_thr (PyInt i) req = Inr (init hid top_thr bottom_thr i req)"
    by (simp add: SquatAnalyzer_def)
  have b: "min_frames_below (init hid top_thr bottom_thr i req) = max 1 i"
    "1 \<le> min_frames_below (init hid top_thr bottom_thr i req)"
    by (simp_all add: init_def)
  have c: "SquatAnalyzer hid top_thr bottom_thr v req = Inr s \<longrightarrow>
      1 \<le> min_frames_below s \<and>
      (\<exists>n. py_int v = Inr n \<and> min_frames_below s = max 1 n)"
    by (auto simp add: constructor_result init_def)
  have d: "(\<exists>e. SquatAnalyzer hid top_thr bottom_thr v req = Inl e) \<longleftrightarrow>
      v = PyNone \<or> v = PyFloat NaN \<or> v = PyFloat PosInf \<or> v = PyFloat NegInf"
    by (simp only: constructor_fails py_int_fails)
  show ?thesis using a b c d by (simp only: constructor_fails simp_thms)
qed

text \<open>The arguments -2 and -2.7, both stored as 1, and 3.9, stored as 3.\<close>

theorem constructor_min_frames_witness:
  "SquatAnalyzer 0 200 350 (PyInt (- 2)) True = Inr (init 0 200 350 (- 2) True) \<and>
   min_frames_below (init 0 200 350 (- 2) True) = 1 \<and>
   SquatAnalyzer 0 200 350 (PyFloat (Finite (- 27 / 10))) True = Inr (init 0 200 350 (- 2) True) \<and>
   SquatAnalyzer 0 200 350 (PyFloat (Finite (39 / 10))) True = Inr (init 0 200 350 3 True) \<and>
   min_frames_below (init 0 200 350 3 True) = 3 \<and>
   py_int (PyFloat (Finite (- 27 / 10))) = Inr (- 2)"
  using constructor_min_frames [of 0 200 350 "- 2" True "PyFloat (Finite (- 27 / 10))"
      "init 0 200 350 (- 2) True" TypeError]
    constructor_min_frames [of 0 200 350 3 True "PyFloat (Finite (39 / 10))"
      "init 0 200 350 3 True" TypeError]
  by (simp add: SquatAnalyzer_def init_def)

section \<open>Reachable phases\<close>

lemma phase_closed_step:
  "state self = ''above'' \<or> state self = ''below'' \<Longrightarrow>
   state (step self c) = ''above'' \<or> state (step self c) = ''below''"
  by (cases c) (simp_all add: phase_closed_update reset_def)

lemma phase_closed_run:
  "state self = ''above'' \<or> state self = ''below'' \<Longrightarrow>
   state (run self cs) = ''above'' \<or> state (run self cs) = ''below''"
proof (induction cs arbitrary: self)
  case Nil
  then show ?case by simp
next
  case (Cons c cs)
  have "state (step self c) = ''above'' \<or> state (step self c) = ''below''"
    using Cons.prems by (rule phase_closed_step)
  then have "state (run (step self c) cs) = ''above'' \<or> state (run (step self c) cs) = ''below''"
    by (rule Cons.IH)
  then show ?case by simp
qed

lemma fallback_status:
  "status_text (fst (update self markers)) = ''State reset'' \<longleftrightarrow>
     markers (hip_id self) \<noteq> None \<and> state self \<noteq> ''above'' \<and> state self \<noteq> ''below''"
  by (simp add: update_def result_of_def Let_def split: option.splits)

text \<open>
  Claim C7. After any sequence of \<open>update\<close> and \<open>reset\<close> calls on a freshly
  constructed analyzer the phase is \<open>"above"\<close> or \<open>"below"\<close>, so the next call of
  \<open>update\<close> never takes the fallback branch, whose status text is \<open>"State reset"\<close>.
\<close>

theorem phase_above_or_below:
  "(state (run (init hid top_thr bottom_thr mfb req) cs) = ''above'' \<or>
    state (run (init hid top_thr bottom_thr mfb req) cs) = ''below'') \<and>
   status_text (fst (update (run (init hid top_thr bottom_thr mfb req) cs) markers))
     \<noteq> ''State reset''"
proof -
  have "state (init hid top_thr bottom_thr mfb req) = ''above''"
    by (simp add: init_def)
  then have "state (run (init hid top_thr bottom_thr mfb req) cs) = ''above'' \<or>
    state (run (init hid top_thr bottom_thr mfb req) cs) = ''below''"
    by (intro phase_closed_run) simp
  then show ?thesis by (auto simp add: fallback_status)
qed

text \<open>Two call sequences, one ending in each phase.\<close>

theorem phase_above_or_below_witness:
  "state (run (init 0 200 350 2 True)
      [Update (seen 0 400), Update (seen 0 400), Update Map.empty]) = ''below'' \<and>
   state (run (init 0 200 350 2 True)
      [Update (seen 0 400), Update (seen 0 400), Reset, Update (seen 0 100)]) = ''above'' \<and>
   status_text (fst (update (run (init 0 200 350 2 True)
      [Update (seen 0 400), Update (seen 0 400), Update Map.empty]) (seen 0 400)))
     = ''Below / coming up''"
  using phase_above_or_below [of 0 200 350 2 True
      "[Update (seen 0 400), Update (seen 0 400), Update Map.empty]" "seen 0 400"]
  by (simp add: update_def result_of_def init_def seen_def reset_def Let_def)

section \<open>The flag \<open>require_marker\<close>\<close>

lemma require_marker_state:
  "snd (update (self\<lparr>require_marker := b\<rparr>) m) = (snd (update self m))\<lparr>require_marker := b\<rparr>"
  by (simp add: update_def Let_def split: option.splits)

lemma require_marker_result:
  "without_text (fst (update (self\<lparr>require_marker := b\<rparr>) m)) = without_text (fst (update self m))"
  by (simp add: update_def result_of_def without_text_def Let_def split: option.splits)

lemma require_marker_present:
  "m (hip_id self) \<noteq> None \<Longrightarrow>
   fst (update (self\<lparr>require_marker := b\<rparr>) m) = fst (update self m)"
  by (auto simp add: update_def result_of_def Let_def split: option.splits)

lemma require_marker_results:
  "map without_text (results (self\<lparr>require_marker := b\<rparr>) ms) = map without_text (results self ms)"
proof (induction ms arbitrary: self)
  case Nil
  show ?case by (simp add: results_def)
next
  case (Cons m ms)
  show ?case
    by (simp only: results_Cons list.map require_marker_state require_marker_result Cons.IH)
qed

lemma require_marker_run:
  "run_updates (self\<lparr>require_marker := b\<rparr>) ms = (run_updates self ms)\<lparr>require_marker := b\<rparr>"
  by (induction ms arbitrary: self) (simp_all add: require_marker_state)

text \<open>
  Claim C8, amended. Two analyzers that differ in \<open>require_marker\<close> only, fed the same
  frames, report on every frame the same \<open>rep_count\<close>, \<open>new_rep\<close>, \<open>depth\<close> and
  phase, and end in states that differ in \<open>require_marker\<close> only. On a frame with the hip
  marker the whole results are equal; on a frame without it the status texts are
  \<open>"Hip marker not detected"\<close> for \<open>require_marker = True\<close> and
  \<open>"No marker (ignored)"\<close> for \<open>False\<close>.
\<close>

theorem require_marker_changes_text_only:
  "map without_text (results (self\<lparr>require_marker := True\<rparr>) ms) =
     map without_text (results (self\<lparr>require_marker := False\<rparr>) ms) \<and>
   run_updates (self\<lparr>require_marker := True\<rparr>) ms =
     (run_updates (self\<lparr>require_marker := False\<rparr>) ms)\<lparr>require_marker := True\<rparr> \<and>
   (m (hip_id self) \<noteq> None \<longrightarrow>
      fst (update (self\<lparr>require_marker := True\<rparr>) m) =
      fst (update (self\<lparr>require_marker := False\<rparr>) m)) \<and>
   (m' (hip_id self) = None \<longrightarrow>
      status_text (fst (update (self\<lparr>require_marker := True\<rparr>) m')) = ''Hip marker not detected'' \<and>
      status_text (fst (update (self\<lparr>require_marker := False\<rparr>) m')) = ''No marker (ignored)'')"
proof -
  have a: "map without_text (results (self\<lparr>require_marker := True\<rparr>) ms) =
     map without_text (results (self\<lparr>require_marker := False\<rparr>) ms)"
    by (simp only: require_marker_results)
  have b: "run_updates (self\<lparr>require_marker := True\<rparr>) ms =
     (run_updates (self\<lparr>require_marker := False\<rparr>) ms)\<lparr>require_marker := True\<rparr>"
    by (simp add: require_marker_run)
  have c: "m (hip_id self) \<noteq> None \<longrightarrow>
      fst (update (self\<lparr>require_marker := True\<rparr>) m) =
      fst (update (self\<lparr>require_marker := False\<rparr>) m)"
    by (simp add: require_marker_present)
  have d: "m' (hip_id self) = None \<longrightarrow>
      status_text (fst (update (self\<lparr>require_marker := True\<rparr>) m')) = ''Hip marker not detected'' \<and>
      status_text (fst (update (self\<lparr>require_marker := False\<rparr>) m')) = ''No marker (ignored)''"
    by (simp add: update_def result_of_def)
  show ?thesis using a b c d by blast
qed

text \<open>Three frames, the second without the hip marker.\<close>

theorem require_marker_changes_text_only_witness:
  "seen 0 400 (hip_id (init 0 200 350 1 True)) \<noteq> None \<and>
   Map.empty (hip_id (init 0 200 350 1 True)) = (None :: marker option) \<and>
   map without_text (results (init 0 200 350 1 True) [seen 0 400, Map.empty, seen 0 100]) =
     map without_text (results (init 0 200 350 1 False) [seen 0 400, Map.empty, seen 0 100]) \<and>
   fst (update (init 0 200 350 1 True) (seen 0 400)) =
     fst (update (init 0 200 350 1 False) (seen 0 400)) \<and>
   status_text (fst (update (init 0 200 350 1 True) Map.empty)) = ''Hip marker not detected'' \<and>
   status_text (fst (update (init 0 200 350 1 False) Map.empty)) = ''No marker (ignored)''"
  using require_marker_changes_text_only [of "init 0 200 350 1 True"
      "[seen 0 400, Map.empty, seen 0 100]" "seen 0 400" Map.empty]
  by (simp add: init_def seen_def)

text \<open>
  Claim C8 as stated, identical results on every frame, fails on a frame without the hip
  marker: the two results differ (in \<open>status_text\<close>).
\<close>

theorem require_marker_counterexample:
  "fst (update (init 0 200 350 2 True) Map.empty) \<noteq>
   fst (update (init 0 200 350 2 False) Map.empty)"
  by (simp add: update_def result_of_def init_def)

section \<open>The invariant of the debounce counter\<close>

lemma inv_init: "state_inv (init hid top_thr bottom_thr mfb req)"
  by (simp add: state_inv_def init_def)

lemma inv_update: "state_inv self \<Longrightarrow> state_inv (snd (update self m))"
  by (auto simp add: state_inv_def update_def Let_def split: option.splits if_splits)

lemma inv_reset: "state_inv self \<Longrightarrow> state_inv (reset self)"
  by (auto simp add: state_inv_def reset_def)

lemma inv_run: "state_inv self \<Longrightarrow> state_inv (run self cs)"
proof (induction cs arbitrary: self)
  case Nil
  then show ?case by simp
next
  case (Cons c cs)
  have "state_inv (step self c)"
    using Cons.prems by (cases c) (simp_all add: inv_update inv_reset)
  then show ?case using Cons.IH by simp
qed

text \<open>
  Claim C10. The invariant \<open>0 \<le> below_frame_counter < min_frames_below\<close>, with the
  counter at 0 in phase \<open>"below"\<close>, holds of every freshly constructed analyzer, is
  preserved by \<open>update\<close> and by \<open>reset\<close>, and so holds after any sequence of calls.
\<close>

theorem counter_invariant:
  "state_inv (init hid top_thr bottom_thr mfb req) \<and>
   (state_inv self \<longrightarrow> state_inv (snd (update self m)) \<and> state_inv (reset self)) \<and>
   state_inv (run (init hid top_thr bottom_thr mfb req) cs)"
  using inv_init [of hid top_thr bottom_thr mfb req]
    inv_run [of "init hid top_thr bottom_thr mfb req" cs]
  by (simp add: inv_update inv_reset)

text \<open>Debounce length 3: the counter at 1, at 2, and back at 0 in phase below.\<close>

theorem counter_invariant_witness:
  "state_inv (snd (update (init 0 200 350 3 True) (seen 0 400))) \<and>
   below_frame_counter (snd (update (init 0 200 350 3 True) (seen 0 400))) = 1 \<and>
   state_inv (snd (update (snd (update (init 0 200 350 3 True) (seen 0 400))) (seen 0 400))) \<and>
   below_frame_counter (snd (update (snd (update (init 0 200 350 3 True) (seen 0 400))) (seen 0 400))) = 2 \<and>
   state_inv (reset (snd (update (init 0 200 350 3 True) (seen 0 400)))) \<and>
   state_inv (run (init 0 200 350 3 True)
      [Update (seen 0 400), Update (seen 0 400), Update (seen 0 400)]) \<and>
   state (run (init 0 200 350 3 True)
      [Update (seen 0 400), Update (seen 0 400), Update (seen 0 400)]) = ''below''"
  using counter_invariant [of 0 200 350 3 True
      "snd (update (init 0 200 350 3 True) (seen 0 400))" "seen 0 400"
      "[Update (seen 0 400), Update (seen 0 400), Update (seen 0 400)]"]
  by (simp add: state_inv_def update_def init_def seen_def reset_def Let_def)

end
